theory Spec2Isabelle
  imports Main "HOL-Library.Sublist"
begin

section \<open>Data model of the soopchat client\<close>

text \<open>
  A Go \<^verbatim>\<open>[]byte\<close> and a Go \<^verbatim>\<open>string\<close> are both sequences of bytes; an Isabelle
  \<^typ>\<open>char\<close> is one byte, so both are modelled as \<^typ>\<open>string\<close>.
\<close>

type_synonym bytes = string

text \<open>A Go \<^verbatim>\<open>error\<close> value, identified by the text of \<^verbatim>\<open>err.Error()\<close>.\<close>

datatype error = Error string

text \<open>
  How a Go function that returns \<^verbatim>\<open>error\<close> ends: \<^verbatim>\<open>return nil\<close>,
  \<^verbatim>\<open>return err\<close>, or a run-time panic (nil pointer, index out of range).
\<close>

datatype outcome = Nil | Err error | Panic

text \<open>
  The fields of \<^verbatim>\<open>Token\<close> and \<^verbatim>\<open>Client\<close> that the code under study reads or writes.
  An observer field (\<^verbatim>\<open>c.onError\<close>, ...) is a function pointer in Go; the model keeps
  whether it is registered (non-nil), and records each invocation as an event.
\<close>

record Identifier =
  ID :: string
  Password :: string

record token =
  StreamerID :: string
  Flag :: string
  Identifier :: Identifier
  authTicket :: string
  chatRoom :: string
  fanTicket :: string

text \<open>
  The websocket connection is owned by an external library. Its state is the list of
  results that the coming calls of \<^verbatim>\<open>WriteMessage\<close> will return (\<open>None\<close> is nil);
  once the list is used up every write succeeds.
\<close>

type_synonym conn = "error option list"

record client =
  Token :: token
  socket :: "conn option"
  socketAddress :: string
  handshake :: "bytes list"
  channelPassword :: string
  onError :: bool
  onConnect :: bool
  onLogin :: bool
  onRawMessage :: bool
  onJoinChannel :: bool
  onUserLists :: bool
  onChatMessage :: bool
  onBalloon :: bool
  onAdballoon :: bool
  onSubscription :: bool
  onAdminNotice :: bool
  onMission :: bool

text \<open>The parsers the dispatcher can call, one per event kind.\<close>

datatype kind =
  JoinChannel | UserJoin | ChatMessage | Balloon | Adballoon | Subscription | AdminNotice | Mission

text \<open>
  What a run does that the outside can see, in the order it happens: a message taken
  from the read channel, a call of \<^verbatim>\<open>c.socket.WriteMessage\<close> with the bytes passed,
  a call of one of the parsers, and each invocation of an observer with its argument. The payload structs
  (\<^verbatim>\<open>ChatMessage\<close>, \<^verbatim>\<open>Balloon\<close>, ...) are declared in another file of the package
  and are the type parameter \<open>'p\<close>.
\<close>

datatype 'p event =
    Recv bytes
  | SockWrite bytes
  | Parse kind bytes
  | OnError error
  | OnConnect bool
  | OnLogin bool
  | OnRawMessage string
  | OnJoinChannel bool
  | OnUserLists 'p
  | OnChatMessage 'p
  | OnBalloon 'p
  | OnAdballoon 'p
  | OnSubscription 'p
  | OnAdminNotice string
  | OnMission 'p

text \<open>
  A struct value as reflection sees it: its fields in declaration order, each with the
  text of its \<^verbatim>\<open>json\<close> tag and its value.
\<close>

datatype gval = VString string | VInt int | VBool bool

type_synonym gstruct = "(string \<times> gval) list"

text \<open>\<^verbatim>\<open>reflect.Value.IsZero\<close> on a string, an integer or a boolean field.\<close>

fun IsZero :: "gval \<Rightarrow> bool" where
  "IsZero (VString s) = (s = [])"
| "IsZero (VInt i) = (i = 0)"
| "IsZero (VBool b) = (\<not> b)"

text \<open>
  Parameters of the model: the functions, constants and struct values that the code
  calls and that other files of the package declare. The frame codec (\<open>makeBuffer\<close>,
  \<open>makeHeader\<close>, \<open>getServiceCode\<close>) and the event parsers are taken as pure functions of
  their arguments, the service codes of the switch as integers. \<open>sprintf_q\<close>, \<open>sprintf_v\<close>
  and \<open>toLower\<close> stand for \<^verbatim>\<open>fmt.Sprintf("%q", _)\<close>, \<^verbatim>\<open>fmt.Sprintf("%v", _)\<close> and
  \<^verbatim>\<open>strings.ToLower\<close> of the Go library.
\<close>

record 'p env =
  svc_CHUSER :: int
  svc_CHATMESG :: int
  svc_SENDBALLOON :: int
  svc_ADCON_EFFECT :: int
  svc_FOLLOW_ITEM :: int
  svc_FOLLOW_ITEM_EFFECT :: int
  svc_SENDADMINNOTICE :: int
  svc_MISSION :: int
  getServiceCode :: "bytes \<Rightarrow> int \<times> error option"
  parseJoinChannel :: "bytes \<Rightarrow> bool"
  parseUserJoin :: "bytes \<Rightarrow> 'p"
  parseChatMessage :: "bytes \<Rightarrow> 'p \<times> error option"
  parseBalloon :: "bytes \<Rightarrow> 'p \<times> error option"
  parseAdballoon :: "bytes \<Rightarrow> 'p \<times> error option"
  parseSubscription :: "bytes \<Rightarrow> int \<Rightarrow> 'p \<times> error option"
  parseAdminNotice :: "bytes \<Rightarrow> string \<times> error option"
  parseMission :: "bytes \<Rightarrow> 'p \<times> error option"
  makeBuffer :: "string list \<Rightarrow> bytes"
  makeHeader :: "int \<Rightarrow> int \<Rightarrow> int \<Rightarrow> bytes"
  defaultLog :: gstruct
  defaultInfo :: "string \<Rightarrow> gstruct"
  sprintf_q :: "bytes \<Rightarrow> string"
  sprintf_v :: "gval \<Rightarrow> string"
  toLower :: "string \<Rightarrow> string"

text \<open>
  Modelled from the spec: the constants \<^verbatim>\<open>svc_LOGIN\<close> and \<^verbatim>\<open>svc_JOINCH\<close>, which
  another file of the package declares. The handshake frame cache is "indexed by phase
  {LOGIN=1, JOIN=2}"; the code agrees, as it reads the cache at \<^verbatim>\<open>svc-1\<close> and fills it
  by \<^verbatim>\<open>setHandshakeData(1, _)\<close> and \<^verbatim>\<open>setHandshakeData(2, _)\<close>.
\<close>

definition svc_LOGIN :: int where
  "svc_LOGIN = 1"

definition svc_JOINCH :: int where
  "svc_JOINCH = 2"

type_synonym 'p run = "'p event list \<times> client \<times> outcome"

section \<open>Construction\<close>

text \<open>\<^verbatim>\<open>&Client{}\<close>: every field at its zero value.\<close>

definition zero_token :: token where
  "zero_token = \<lparr>StreamerID = [], Flag = [], Identifier = \<lparr>ID = [], Password = []\<rparr>,
     authTicket = [], chatRoom = [], fanTicket = []\<rparr>"

definition zero_client :: client where
  "zero_client = \<lparr>Token = zero_token, socket = None, socketAddress = [], handshake = [],
     channelPassword = [], onError = False, onConnect = False, onLogin = False,
     onRawMessage = False, onJoinChannel = False, onUserLists = False,
     onChatMessage = False, onBalloon = False, onAdballoon = False,
     onSubscription = False, onAdminNotice = False, onMission = False\<rparr>"

text \<open>
  \<^verbatim>\<open>NewClient\<close>. The read channel is made empty here; the model passes the messages
  that go through it to \<open>startParser\<close> as a list. The HTTP client is not modelled.
\<close>

definition NewClient :: "token \<Rightarrow> client \<times> error option" where
  "NewClient tok =
     (if StreamerID tok = [] then (zero_client, Some (Error ''StreamerID is missing from token''))
      else (zero_client\<lparr>Token := tok, handshake := [[], []], channelPassword := []\<rparr>, None))"

section \<open>Handshake\<close>

text \<open>\<^verbatim>\<open>c.socket.WriteMessage(websocket.BinaryMessage, p)\<close> on a connection.\<close>

definition WriteMessage :: "conn \<Rightarrow> conn \<times> error option" where
  "WriteMessage s = (case s of [] \<Rightarrow> ([], None) | r # rs \<Rightarrow> (rs, r))"

definition report :: "client \<Rightarrow> error \<Rightarrow> 'p event list" where
  "report c e = (if onError c then [OnError e] else [])"

definition setHandshakeData :: "'p env \<Rightarrow> client \<Rightarrow> int \<Rightarrow> string list \<Rightarrow> client \<times> outcome" where
  "setHandshakeData E c svc packet =
     (let bodyBuf = makeBuffer E packet;
          headerBuf = makeHeader E svc (int (length bodyBuf)) 0;
          p = headerBuf @ bodyBuf
      in if 0 \<le> svc - 1 \<and> nat (svc - 1) < length (handshake c)
         then (c\<lparr>handshake := (handshake c)[nat (svc - 1) := p]\<rparr>, Nil)
         else (c, Panic))"

definition setLoginHandshke :: "'p env \<Rightarrow> client \<Rightarrow> client \<times> outcome" where
  "setLoginHandshke E c =
     setHandshakeData E c 1
       [[CHR 0x0C], authTicket (Token c), [CHR 0x0C], [CHR 0x0C], Flag (Token c), [CHR 0x0C]]"

fun setInfoHandshake_loop :: "'p env \<Rightarrow> gstruct \<Rightarrow> bytes \<Rightarrow> bytes" where
  "setInfoHandshake_loop E [] result = result"
| "setInfoHandshake_loop E ((tag, field) # fs) result =
     (if \<not> IsZero field
      then (let k = toLower E tag;
                v = sprintf_v E field;
                kv = k @ [CHR 0x11];
                kv = kv @ v;
                kv = kv @ [CHR 0x12]
            in setInfoHandshake_loop E fs (result @ kv))
      else setInfoHandshake_loop E fs result)"

definition setInfoHandshake :: "'p env \<Rightarrow> gstruct \<Rightarrow> bytes" where
  "setInfoHandshake E info = setInfoHandshake_loop E info []"

fun setLogValue_loop :: "'p env \<Rightarrow> gstruct \<Rightarrow> bytes \<Rightarrow> bytes" where
  "setLogValue_loop E [] result = result"
| "setLogValue_loop E ((tag, field) # fs) result =
     (if \<not> IsZero field
      then (let k = toLower E tag;
                v = sprintf_v E field;
                kv = [CHR 0x06] @ k;
                kv = kv @ [CHR 0x06, CHR ''='', CHR 0x06];
                kv = kv @ v;
                kv = kv @ [CHR 0x06, CHR ''&'']
            in setLogValue_loop E fs (result @ kv))
      else setLogValue_loop E fs result)"

definition setLogValue :: "'p env \<Rightarrow> gstruct \<Rightarrow> bytes" where
  "setLogValue E log = [CHR 0x06, CHR 0x26] @ setLogValue_loop E log []"

definition setLogHandshake :: "'p env \<Rightarrow> gstruct \<Rightarrow> bytes" where
  "setLogHandshake E log = (''log'' @ [CHR 0x11]) @ setLogValue E log @ [CHR 0x12]"

definition setJoinHandshake :: "'p env \<Rightarrow> client \<Rightarrow> client \<times> outcome" where
  "setJoinHandshake E c =
     (let infoPacket = setLogHandshake E (defaultLog E)
                       @ setInfoHandshake E (defaultInfo E (channelPassword c))
      in setHandshakeData E c 2
           [[CHR 0x0C], chatRoom (Token c), [CHR 0x0C], [CHR 0x0C], fanTicket (Token c), ''0'',
            [CHR 0x0C], [], [CHR 0x0C], infoPacket, [CHR 0x0C]])"

text \<open>
  \<^verbatim>\<open>setHandshake\<close>: the cached frame of the phase goes to the socket. Reading the
  cache out of range and writing to a nil connection panic.
\<close>

definition setHandshake :: "client \<Rightarrow> int \<Rightarrow> 'p run" where
  "setHandshake c svc =
     (if \<not> (0 \<le> svc - 1 \<and> nat (svc - 1) < length (handshake c)) then ([], c, Panic)
      else case socket c of
        None \<Rightarrow> ([], c, Panic)
      | Some s \<Rightarrow>
          (let p = handshake c ! nat (svc - 1);
               (s', err) = WriteMessage s;
               c' = c\<lparr>socket := Some s'\<rparr>
           in case err of
                Some e \<Rightarrow>
                  ([SockWrite p] @ (if onConnect c then [OnConnect False] else []) @ report c e,
                   c', Err e)
              | None \<Rightarrow>
                  ([SockWrite p]
                   @ (if svc = svc_JOINCH \<and> onConnect c then [OnConnect True] else []),
                   c', Nil)))"

definition executeHandshake :: "'p env \<Rightarrow> client \<Rightarrow> int \<Rightarrow> 'p run" where
  "executeHandshake E c svc =
     (let (c1, r1) = (if svc = svc_LOGIN then setLoginHandshke E c
                      else if svc = svc_JOINCH then setJoinHandshake E c
                      else (c, Nil))
      in case r1 of
           Panic \<Rightarrow> ([], c1, Panic)
         | Err e \<Rightarrow> (report c1 e, c1, Err e)
         | Nil \<Rightarrow>
             (case setHandshake c1 svc of
                (tr, c2, Err e) \<Rightarrow> (tr @ report c2 e, c2, Err e)
              | (tr, c2, r) \<Rightarrow> (tr, c2, r)))"

section \<open>Dispatch\<close>

text \<open>
  The branch shared by the chat, balloon, ad-balloon, subscription, admin-notice and
  mission cases: nothing when the observer of the kind is nil; else the parser runs, and
  its error goes to the error observer, its value to the observer of the kind.
\<close>

definition parsed :: "client \<Rightarrow> bool \<Rightarrow> kind \<Rightarrow> bytes \<Rightarrow> 'a \<times> error option \<Rightarrow> ('a \<Rightarrow> 'p event)
    \<Rightarrow> 'p event list" where
  "parsed c registered k msg res deliver =
     (if registered
      then Parse k msg # (case res of (m, Some e) \<Rightarrow> report c e | (m, None) \<Rightarrow> [deliver m])
      else [])"

text \<open>The \<^verbatim>\<open>switch svc\<close> of \<^verbatim>\<open>startParser\<close>, its cases in the order of the source.\<close>

definition handle :: "'p env \<Rightarrow> client \<Rightarrow> int \<Rightarrow> bytes \<Rightarrow> 'p run" where
  "handle E c svc msg =
     (if svc = svc_LOGIN then
        (case executeHandshake E c svc_JOINCH of
           (tr, c', Err e) \<Rightarrow> (tr @ report c' e, c', Err e)
         | (tr, c', r) \<Rightarrow> (tr, c', r))
      else if svc = svc_JOINCH then
        (if onJoinChannel c
         then ([Parse JoinChannel msg, OnJoinChannel (parseJoinChannel E msg)], c, Nil)
         else ([], c, Nil))
      else if svc = svc_CHUSER E then
        (if onUserLists c
         then ([Parse UserJoin msg, OnUserLists (parseUserJoin E msg)], c, Nil)
         else ([], c, Nil))
      else if svc = svc_CHATMESG E then
        (parsed c (onChatMessage c) ChatMessage msg (parseChatMessage E msg) OnChatMessage, c, Nil)
      else if svc = svc_SENDBALLOON E then
        (parsed c (onBalloon c) Balloon msg (parseBalloon E msg) OnBalloon, c, Nil)
      else if svc = svc_ADCON_EFFECT E then
        (parsed c (onAdballoon c) Adballoon msg (parseAdballoon E msg) OnAdballoon, c, Nil)
      else if svc = svc_FOLLOW_ITEM E \<or> svc = svc_FOLLOW_ITEM_EFFECT E then
        (parsed c (onSubscription c) Subscription msg (parseSubscription E msg svc) OnSubscription,
         c, Nil)
      else if svc = svc_SENDADMINNOTICE E then
        (parsed c (onAdminNotice c) AdminNotice msg (parseAdminNotice E msg) OnAdminNotice, c, Nil)
      else if svc = svc_MISSION E then
        (parsed c (onMission c) Mission msg (parseMission E msg) OnMission, c, Nil)
      else ([], c, Nil))"

text \<open>
  What comes before the switch in the loop body: a message that starts with
  \<^verbatim>\<open>"error: "\<close> goes to the error observer, every message goes to the raw-message
  observer, and an error of \<^verbatim>\<open>getServiceCode\<close> goes to the error observer.
\<close>

definition read_error :: "client \<Rightarrow> bytes \<Rightarrow> 'p event list" where
  "read_error c msg = (if prefix ''error: '' msg then report c (Error msg) else [])"

definition raw :: "'p env \<Rightarrow> client \<Rightarrow> bytes \<Rightarrow> 'p event list" where
  "raw E c msg = (if onRawMessage c then [OnRawMessage (sprintf_q E msg)] else [])"

definition code_error :: "'p env \<Rightarrow> client \<Rightarrow> bytes \<Rightarrow> 'p event list" where
  "code_error E c msg = (case snd (getServiceCode E msg) of Some e \<Rightarrow> report c e | None \<Rightarrow> [])"

text \<open>One turn of the loop of \<^verbatim>\<open>startParser\<close>; \<open>Nil\<close> is the end of the body.\<close>

definition dispatch :: "'p env \<Rightarrow> client \<Rightarrow> bytes \<Rightarrow> 'p run" where
  "dispatch E c msg =
     (case handle E c (fst (getServiceCode E msg)) msg of
        (tr, c', r) \<Rightarrow>
          (Recv msg # read_error c msg @ raw E c msg @ code_error E c msg @ tr, c', r))"

text \<open>
  \<^verbatim>\<open>startParser\<close> over the messages that come out of the read channel, in order. The
  loop ends when the channel is closed and empty (\<^verbatim>\<open>return nil\<close>) or at the first
  turn that returns; the last component is what is left in the channel.
\<close>

fun startParser :: "'p env \<Rightarrow> client \<Rightarrow> bytes list \<Rightarrow> 'p event list \<times> client \<times> outcome \<times> bytes list" where
  "startParser E c [] = ([], c, Nil, [])"
| "startParser E c (msg # rest) =
     (case dispatch E c msg of
        (tr, c', Nil) \<Rightarrow>
          (case startParser E c' rest of (tr', c'', r, left) \<Rightarrow> (tr @ tr', c'', r, left))
      | (tr, c', r) \<Rightarrow> (tr, c', r, rest))"

text \<open>
  \<^verbatim>\<open>reader\<close>: each result of \<^verbatim>\<open>c.socket.ReadMessage()\<close> becomes one message of
  the read channel, a failed read as the text \<^verbatim>\<open>"error: "\<close> and the error.
\<close>

definition reader :: "(error + bytes) list \<Rightarrow> bytes list" where
  "reader results =
     map (\<lambda>r. case r of Inl (Error text) \<Rightarrow> ''error: '' @ text | Inr msg \<Rightarrow> msg) results"

section \<open>Sending a chat message\<close>

definition SendChatMessage :: "'p env \<Rightarrow> client \<Rightarrow> string \<Rightarrow> 'p run" where
  "SendChatMessage E c message =
     (if authTicket (Token c) = [] then ([], c, Err (Error ''cannot non-member send message''))
      else
        (let tBuf = [[CHR 0x0C], message, [CHR 0x0C], ''0'', [CHR 0x0C]];
             bodyBuf = makeBuffer E tBuf;
             headerBuf = makeHeader E 5 (int (length bodyBuf)) 0;
             packet = headerBuf @ bodyBuf
         in case socket c of
              None \<Rightarrow> ([], c, Panic)
            | Some s \<Rightarrow>
                (let (s', err) = WriteMessage s
                 in ([SockWrite packet], c\<lparr>socket := Some s'\<rparr>,
                     case err of None \<Rightarrow> Nil | Some e \<Rightarrow> Err e))))"

section \<open>Reading a trace\<close>

fun is_write :: "'p event \<Rightarrow> bool" where
  "is_write (SockWrite p) = True"
| "is_write _ = False"

fun is_raw :: "'p event \<Rightarrow> bool" where
  "is_raw (OnRawMessage text) = True"
| "is_raw _ = False"

fun is_error :: "'p event \<Rightarrow> bool" where
  "is_error (OnError e) = True"
| "is_error _ = False"

text \<open>The events that are calls of an observer.\<close>

fun is_observer :: "'p event \<Rightarrow> bool" where
  "is_observer (Recv msg) = False"
| "is_observer (SockWrite p) = False"
| "is_observer (Parse k msg) = False"
| "is_observer _ = True"

text \<open>The messages taken from the read channel during a trace, in the order taken.\<close>

fun received :: "'p event list \<Rightarrow> bytes list" where
  "received [] = []"
| "received (Recv msg # tr) = msg # received tr"
| "received (_ # tr) = received tr"

text \<open>The observer of a kind of event, and the service codes of its case in the switch.\<close>

fun observer :: "client \<Rightarrow> kind \<Rightarrow> bool" where
  "observer c JoinChannel = onJoinChannel c"
| "observer c UserJoin = onUserLists c"
| "observer c ChatMessage = onChatMessage c"
| "observer c Balloon = onBalloon c"
| "observer c Adballoon = onAdballoon c"
| "observer c Subscription = onSubscription c"
| "observer c AdminNotice = onAdminNotice c"
| "observer c Mission = onMission c"

fun codes :: "'p env \<Rightarrow> kind \<Rightarrow> int list" where
  "codes E JoinChannel = [svc_JOINCH]"
| "codes E UserJoin = [svc_CHUSER E]"
| "codes E ChatMessage = [svc_CHATMESG E]"
| "codes E Balloon = [svc_SENDBALLOON E]"
| "codes E Adballoon = [svc_ADCON_EFFECT E]"
| "codes E Subscription = [svc_FOLLOW_ITEM E, svc_FOLLOW_ITEM_EFFECT E]"
| "codes E AdminNotice = [svc_SENDADMINNOTICE E]"
| "codes E Mission = [svc_MISSION E]"

text \<open>
  The case constants of a Go \<^verbatim>\<open>switch\<close> are pairwise different (the compiler
  rejects a duplicate).
\<close>

definition distinct_codes :: "'p env \<Rightarrow> bool" where
  "distinct_codes E =
     distinct [svc_LOGIN, svc_JOINCH, svc_CHUSER E, svc_CHATMESG E, svc_SENDBALLOON E,
       svc_ADCON_EFFECT E, svc_FOLLOW_ITEM E, svc_FOLLOW_ITEM_EFFECT E,
       svc_SENDADMINNOTICE E, svc_MISSION E]"

text \<open>
  A client as it is when the dispatcher runs: \<open>NewClient\<close> has made its two-slot
  handshake cache and \<open>createWebsocket\<close> has set its socket.
\<close>

definition ready :: "client \<Rightarrow> bool" where
  "ready c = (socket c \<noteq> None \<and> length (handshake c) = 2)"

text \<open>The JOIN frame of a client: what \<open>setJoinHandshake\<close> stores in the second slot.\<close>

definition join_frame :: "'p env \<Rightarrow> client \<Rightarrow> bytes" where
  "join_frame E c = handshake (fst (setJoinHandshake E c)) ! 1"

section \<open>The observer calls a message is to cause\<close>

text \<open>
  A second description of one turn of the dispatcher, of the observer calls alone,
  written after the spec (Message Dispatcher and Handshake Controller) with the guards
  of the observers made explicit. It does not use the definitions of the dispatcher
  above: the theorem on the order of dispatch compares the two.

  A frame of a parsed kind: nothing without an observer of the kind; else the event of
  the kind, or the parse error for the error observer.
\<close>

definition spec_parsed :: "bool \<Rightarrow> bool \<Rightarrow> 'a \<times> error option \<Rightarrow> ('a \<Rightarrow> 'p event) \<Rightarrow> 'p event list" where
  "spec_parsed on_kind on_error res deliver =
     (if on_kind
      then (case res of
              (m, None) \<Rightarrow> [deliver m]
            | (m, Some e) \<Rightarrow> (if on_error then [OnError e] else []))
      else [])"

text \<open>
  Before the frame is routed: a synthetic error frame of the read activity becomes a
  protocol-error event, every message a raw-message event, and a service code that does
  not decode a protocol-error event.
\<close>

definition spec_before_switch :: "'p env \<Rightarrow> client \<Rightarrow> bytes \<Rightarrow> 'p event list" where
  "spec_before_switch E c msg =
     (if prefix ''error: '' msg \<and> onError c then [OnError (Error msg)] else [])
     @ (if onRawMessage c then [OnRawMessage (sprintf_q E msg)] else [])
     @ (case snd (getServiceCode E msg) of
          Some e \<Rightarrow> (if onError c then [OnError e] else [])
        | None \<Rightarrow> [])"

text \<open>
  A frame with the LOGIN code triggers the JOIN handshake. \<open>w\<close> is how the handshake
  ends: the JOIN frame is sent (joined = true), the transmission fails with an error
  (joined = false, and the error is reported by \<open>setHandshake\<close>, by \<open>executeHandshake\<close> and
  by the dispatcher), or the program panics before any observer is called.
\<close>

definition spec_login :: "client \<Rightarrow> outcome \<Rightarrow> 'p event list" where
  "spec_login c w =
     (case w of
        Nil \<Rightarrow> (if onConnect c then [OnConnect True] else [])
      | Err e \<Rightarrow>
          (if onConnect c then [OnConnect False] else [])
          @ (if onError c then [OnError e, OnError e, OnError e] else [])
      | Panic \<Rightarrow> [])"

text \<open>The routing by service code.\<close>

definition spec_switch :: "'p env \<Rightarrow> client \<Rightarrow> outcome \<Rightarrow> int \<Rightarrow> bytes \<Rightarrow> 'p event list" where
  "spec_switch E c w svc msg =
     (if svc = svc_LOGIN then spec_login c w
      else if svc = svc_JOINCH then
        (if onJoinChannel c then [OnJoinChannel (parseJoinChannel E msg)] else [])
      else if svc = svc_CHUSER E then
        (if onUserLists c then [OnUserLists (parseUserJoin E msg)] else [])
      else if svc = svc_CHATMESG E then
        spec_parsed (onChatMessage c) (onError c) (parseChatMessage E msg) OnChatMessage
      else if svc = svc_SENDBALLOON E then
        spec_parsed (onBalloon c) (onError c) (parseBalloon E msg) OnBalloon
      else if svc = svc_ADCON_EFFECT E then
        spec_parsed (onAdballoon c) (onError c) (parseAdballoon E msg) OnAdballoon
      else if svc = svc_FOLLOW_ITEM E \<or> svc = svc_FOLLOW_ITEM_EFFECT E then
        spec_parsed (onSubscription c) (onError c) (parseSubscription E msg svc) OnSubscription
      else if svc = svc_SENDADMINNOTICE E then
        spec_parsed (onAdminNotice c) (onError c) (parseAdminNotice E msg) OnAdminNotice
      else if svc = svc_MISSION E then
        spec_parsed (onMission c) (onError c) (parseMission E msg) OnMission
      else [])"

text \<open>The observer calls of one message.\<close>

definition spec_events :: "'p env \<Rightarrow> client \<Rightarrow> outcome \<Rightarrow> bytes \<Rightarrow> 'p event list" where
  "spec_events E c w msg = spec_before_switch E c msg @ spec_switch E c w (fst (getServiceCode E msg)) msg"

section \<open>A small instance to run the model on\<close>

text \<open>
  A frame of the instance is the escape byte, a tab, one byte of service code and the
  body; a body is malformed when it is empty. The service codes are those of the
  protocol.
\<close>

definition sample_code :: "bytes \<Rightarrow> int \<times> error option" where
  "sample_code msg =
     (case msg of
        e # t # x # body \<Rightarrow>
          if e = CHR 0x1B \<and> t = CHR 0x09 then (of_char x, None)
          else (0, Some (Error ''invalid header''))
      | _ \<Rightarrow> (0, Some (Error ''invalid header'')))"

definition sample_parse :: "bytes \<Rightarrow> string \<times> error option" where
  "sample_parse msg =
     (if drop 3 msg = [] then ([], Some (Error ''malformed body'')) else (drop 3 msg, None))"

definition sample_env :: "string env" where
  "sample_env = \<lparr>
     svc_CHUSER = 4, svc_CHATMESG = 5, svc_SENDBALLOON = 18, svc_ADCON_EFFECT = 87,
     svc_FOLLOW_ITEM = 91, svc_FOLLOW_ITEM_EFFECT = 93, svc_SENDADMINNOTICE = 58,
     svc_MISSION = 121,
     getServiceCode = sample_code,
     parseJoinChannel = (\<lambda>msg. drop 3 msg \<noteq> []),
     parseUserJoin = drop 3,
     parseChatMessage = sample_parse,
     parseBalloon = sample_parse,
     parseAdballoon = sample_parse,
     parseSubscription = (\<lambda>msg svc. sample_parse msg),
     parseAdminNotice = sample_parse,
     parseMission = sample_parse,
     makeBuffer = concat,
     makeHeader = (\<lambda>svc len ret. [CHR 0x1B, CHR 0x09, char_of svc]),
     defaultLog = [(''set_bps'', VInt 0)],
     defaultInfo = (\<lambda>password. [(''pwd'', VString password)]),
     sprintf_q = (\<lambda>msg. msg),
     sprintf_v = (\<lambda>v. case v of VString s \<Rightarrow> s | VInt i \<Rightarrow> (if i = 0 then ''0'' else ''1'')
                      | VBool b \<Rightarrow> (if b then ''true'' else ''false'')),
     toLower = (\<lambda>s. s)\<rparr>"

text \<open>A client as \<open>NewClient\<close> makes it, connected, with the observers named.\<close>

definition sample_client :: "conn \<Rightarrow> client" where
  "sample_client s =
     (fst (NewClient (zero_token\<lparr>StreamerID := ''abc''\<rparr>)))\<lparr>socket := Some s\<rparr>"

text \<open>The same client with an error, a connect and a chat observer.\<close>

definition sample_watching :: "conn \<Rightarrow> client" where
  "sample_watching s = (sample_client s)\<lparr>onError := True, onConnect := True, onChatMessage := True\<rparr>"

text \<open>
  The JOIN and the LOGIN frame that \<open>sample_client\<close> builds, and three frames from the
  server.
\<close>

definition sample_join :: bytes where
  "sample_join = [CHR 0x1B, CHR 0x09, CHR 0x02, CHR 0x0C, CHR 0x0C, CHR 0x0C, CHR ''0'', CHR 0x0C,
     CHR 0x0C, CHR ''l'', CHR ''o'', CHR ''g'', CHR 0x11, CHR 0x06, CHR ''&'', CHR 0x12, CHR 0x0C]"

definition sample_login :: bytes where
  "sample_login = [CHR 0x1B, CHR 0x09, CHR 0x01, CHR 0x0C, CHR 0x0C, CHR 0x0C, CHR 0x0C]"

definition login_frame :: bytes where
  "login_frame = [CHR 0x1B, CHR 0x09, CHR 0x01, CHR 0x0C]"

definition chat_frame :: bytes where
  "chat_frame = [CHR 0x1B, CHR 0x09, CHR 0x05, CHR ''h'', CHR ''i'']"

definition bad_chat_frame :: bytes where
  "bad_chat_frame = [CHR 0x1B, CHR 0x09, CHR 0x05]"

lemmas model_defs =
  dispatch_def handle_def parsed_def read_error_def raw_def code_error_def report_def
  executeHandshake_def setHandshake_def setLoginHandshke_def setJoinHandshake_def
  setHandshakeData_def setLogHandshake_def setLogValue_def setInfoHandshake_def
  WriteMessage_def svc_LOGIN_def svc_JOINCH_def

lemmas spec_defs =
  spec_events_def spec_switch_def spec_login_def spec_before_switch_def spec_parsed_def

lemmas sample_defs =
  sample_env_def sample_code_def sample_parse_def sample_client_def sample_watching_def
  sample_join_def
  sample_login_def
  login_frame_def chat_frame_def bad_chat_frame_def NewClient_def zero_client_def zero_token_def
  char_of_def

section \<open>What one turn of the dispatcher does\<close>

lemma received_append [simp]: "received (xs @ ys) = received xs @ received ys"
  by (induction xs rule: received.induct) auto

lemma report_props [simp]:
  "received (report c e) = []" "filter is_write (report c e) = []"
  by (auto simp: report_def)

lemma preamble_props [simp]:
  "received (read_error c msg) = []" "filter is_write (read_error c msg) = []"
  "received (raw E c msg) = []" "filter is_write (raw E c msg) = []"
  "received (code_error E c msg) = []" "filter is_write (code_error E c msg) = []"
  by (auto simp: read_error_def raw_def code_error_def split: option.splits)

lemma setHandshake_props:
  assumes "setHandshake c svc = (tr, c', r)"
  shows "received tr = []"
    and "r \<noteq> Panic \<Longrightarrow> length (filter is_write tr) = 1"
    and "r = Panic \<Longrightarrow> tr = []"
  using assms
  by (auto simp: setHandshake_def Let_def WriteMessage_def
      split: if_splits option.splits prod.splits list.splits)

text \<open>The error branches after the two builders are dead: a builder returns nil or panics.\<close>

lemma setHandshakeData_outcome: "setHandshakeData E c svc packet \<noteq> (c', Err e)"
  by (simp add: setHandshakeData_def Let_def)

lemma prepare_outcome:
  "setLoginHandshke E c \<noteq> (c', Err e)" "setJoinHandshake E c \<noteq> (c', Err e)"
  by (simp_all add: setLoginHandshke_def setJoinHandshake_def Let_def setHandshakeData_outcome)

lemma executeHandshake_props:
  assumes "executeHandshake E c svc = (tr, c', r)"
  shows "received tr = []"
    and "r \<noteq> Panic \<Longrightarrow> length (filter is_write tr) = 1"
    and "r = Panic \<Longrightarrow> tr = []"
  using assms
  by (auto simp: executeHandshake_def Let_def prepare_outcome
      split: if_splits prod.splits outcome.splits dest: setHandshake_props)

lemma handle_login:
  assumes "handle E c svc_LOGIN msg = (tr, c', r)"
  shows "received tr = []"
    and "r \<noteq> Panic \<Longrightarrow> length (filter is_write tr) = 1"
    and "r = Panic \<Longrightarrow> tr = []"
  using assms
  by (auto simp: handle_def split: if_splits prod.splits outcome.splits
      dest: executeHandshake_props)

lemma handle_other:
  assumes "svc \<noteq> svc_LOGIN"
  shows "\<exists>tr. handle E c svc msg = (tr, c, Nil) \<and> received tr = [] \<and> filter is_write tr = []"
  using assms by (auto simp: handle_def parsed_def split: prod.splits option.splits)

lemma dispatch_received:
  assumes "dispatch E c msg = (tr, c', r)"
  shows "\<exists>tr'. tr = Recv msg # tr' \<and> received tr' = []"
proof (cases "fst (getServiceCode E msg) = svc_LOGIN")
  case True
  with assms show ?thesis
    by (auto simp: dispatch_def split: prod.splits dest: handle_login(1))
next
  case False
  from handle_other [OF False, of E c msg] assms show ?thesis
    by (auto simp: dispatch_def)
qed

lemma dispatch_other:
  assumes "fst (getServiceCode E msg) \<noteq> svc_LOGIN"
  shows "\<exists>tr. dispatch E c msg = (tr, c, Nil) \<and> filter is_write tr = []"
  using handle_other [OF assms, of E c msg] by (auto simp: dispatch_def)

lemma dispatch_login:
  assumes "dispatch E c msg = (tr, c', r)" "fst (getServiceCode E msg) = svc_LOGIN"
  shows "r \<noteq> Panic \<Longrightarrow> length (filter is_write tr) = 1"
    and "r = Panic \<Longrightarrow> filter is_write tr = []"
  using assms by (auto simp: dispatch_def split: prod.splits dest: handle_login)

section \<open>JOIN only after LOGIN\<close>

text \<open>
  C1. Whatever frames arrive and in whatever order, the dispatcher writes to the socket
  only in reaction to a frame that carries the LOGIN service code: at every socket write
  in the trace of \<open>startParser\<close>, a message has been taken from the read channel before,
  and the last one taken carries the LOGIN code. The only write of the dispatcher is the
  JOIN frame, so no JOIN frame goes out before a LOGIN frame has come in.
\<close>

theorem join_only_after_login:
  "fst (startParser E c msgs) = pre @ SockWrite p # post \<Longrightarrow>
     received pre \<noteq> [] \<and> fst (getServiceCode E (last (received pre))) = svc_LOGIN"
proof (induction msgs arbitrary: c pre)
  case Nil
  then show ?case by simp
next
  case (Cons msg rest)
  obtain tr1 c1 r1 where d: "dispatch E c msg = (tr1, c1, r1)"
    by (cases "dispatch E c msg") auto
  from dispatch_received [OF d] obtain tr1' where tr1: "tr1 = Recv msg # tr1'" "received tr1' = []"
    by blast
  define tr2 where "tr2 = (if r1 = Nil then fst (startParser E c1 rest) else [])"
  have full: "fst (startParser E c (msg # rest)) = tr1 @ tr2"
    using d by (auto simp: tr2_def split: outcome.splits prod.splits)
  with Cons.prems have eq: "pre @ SockWrite p # post = tr1 @ tr2" by simp
  then obtain us where us:
    "(pre = tr1 @ us \<and> us @ SockWrite p # post = tr2) \<or>
     (pre @ us = tr1 \<and> SockWrite p # post = us @ tr2)"
    by (auto simp: append_eq_append_conv2)
  have "(\<exists>vs. pre = tr1 @ vs \<and> tr2 = vs @ SockWrite p # post) \<or>
        (\<exists>vs. tr1 = pre @ SockWrite p # vs)"
  proof (cases us)
    case Nil
    with us show ?thesis by auto
  next
    case (Cons u us')
    with us show ?thesis by auto
  qed
  then consider
    (later) vs where "pre = tr1 @ vs" "tr2 = vs @ SockWrite p # post"
    | (here) vs where "tr1 = pre @ SockWrite p # vs"
    by blast
  then show ?case
  proof cases
    case later
    then have "r1 = Nil" "fst (startParser E c1 rest) = vs @ SockWrite p # post"
      by (auto simp: tr2_def split: if_splits)
    from Cons.IH [OF this(2)] later(1) tr1 show ?thesis by simp
  next
    case here
    have "filter is_write tr1 \<noteq> []" using here by simp
    with dispatch_other [of E msg c] d have login: "fst (getServiceCode E msg) = svc_LOGIN"
      by auto
    from here tr1 obtain pre' where "pre = Recv msg # pre'" "tr1' = pre' @ SockWrite p # vs"
      by (cases pre) auto
    with tr1(2) have "received pre = [msg]" by simp
    with login show ?thesis by simp
  qed
qed

theorem join_only_after_login_witness:
  "fst (startParser sample_env (sample_client []) [chat_frame, login_frame])
     = [Recv chat_frame, Recv login_frame] @ SockWrite sample_join # []
   \<and> received [Recv chat_frame, Recv login_frame :: string event] \<noteq> []
   \<and> fst (getServiceCode sample_env (last (received [Recv chat_frame, Recv login_frame :: string event])))
       = svc_LOGIN"
proof -
  have run: "fst (startParser sample_env (sample_client []) [chat_frame, login_frame])
      = [Recv chat_frame, Recv login_frame] @ SockWrite sample_join # []"
    by (simp add: model_defs sample_defs)
  from join_only_after_login [OF run] run show ?thesis by simp
qed

section \<open>Order of dispatch\<close>

lemma startParser_received:
  "startParser E c msgs = (tr, c', r, left) \<Longrightarrow> received tr @ left = msgs"
proof (induction msgs arbitrary: c tr c' r left)
  case Nil
  then show ?case by simp
next
  case (Cons msg rest)
  obtain tr1 c1 r1 where d: "dispatch E c msg = (tr1, c1, r1)"
    by (cases "dispatch E c msg") auto
  from dispatch_received [OF d] have r1: "received tr1 = [msg]" by auto
  show ?case
  proof (cases "r1 = Nil")
    case True
    obtain tr2 c2 r2 l2 where s: "startParser E c1 rest = (tr2, c2, r2, l2)"
      by (cases "startParser E c1 rest") auto
    from Cons.IH [OF s] Cons.prems d True s r1 show ?thesis by auto
  next
    case False
    with Cons.prems d r1 show ?thesis by (auto split: outcome.splits)
  qed
qed

text \<open>The second description does not look at the socket or at the handshake cache.\<close>

lemma spec_login_frame:
  "spec_login (c\<lparr>socket := s\<rparr>) w = spec_login c w"
  "spec_login (c\<lparr>handshake := h\<rparr>) w = spec_login c w"
  by (simp_all add: spec_login_def split: outcome.splits)

lemma spec_events_frame:
  "spec_events E (c\<lparr>socket := s\<rparr>) = spec_events E c"
  "spec_events E (c\<lparr>handshake := h\<rparr>) = spec_events E c"
  by (simp_all add: spec_events_def spec_before_switch_def spec_switch_def spec_login_frame fun_eq_iff
      split del: if_split cong del: if_weak_cong cong: option.case_cong)

lemma setHandshake_same:
  assumes "setHandshake c svc = (tr, c', r)"
  shows "spec_events E c' = spec_events E c" "onConnect c' = onConnect c" "onError c' = onError c"
proof -
  from assms have f: "c' = c\<lparr>socket := socket c'\<rparr>"
    by (auto simp: setHandshake_def Let_def split: if_splits option.splits prod.splits)
  show "spec_events E c' = spec_events E c" by (metis f spec_events_frame(1))
  from arg_cong [OF f, of onConnect] show "onConnect c' = onConnect c" by simp
  from arg_cong [OF f, of onError] show "onError c' = onError c" by simp
qed

lemma setJoinHandshake_same:
  assumes "setJoinHandshake E c = (c', r)"
  shows "spec_events E c' = spec_events E c" "onConnect c' = onConnect c" "onError c' = onError c"
proof -
  from assms have f: "c' = c\<lparr>handshake := handshake c'\<rparr>"
    by (auto simp: setJoinHandshake_def setHandshakeData_def Let_def split: if_splits)
  show "spec_events E c' = spec_events E c" by (metis f spec_events_frame(2))
  from arg_cong [OF f, of onConnect] show "onConnect c' = onConnect c" by simp
  from arg_cong [OF f, of onError] show "onError c' = onError c" by simp
qed

lemma setHandshake_spec:
  assumes "setHandshake c svc_JOINCH = (tr, c', r)"
  shows "filter is_observer tr
     = (case r of
          Nil \<Rightarrow> (if onConnect c then [OnConnect True] else [])
        | Err e \<Rightarrow> (if onConnect c then [OnConnect False] else [])
                    @ (if onError c then [OnError e] else [])
        | Panic \<Rightarrow> [])"
  using assms
  by (auto simp: setHandshake_def Let_def report_def
      split: prod.splits option.splits if_splits)

lemma executeHandshake_spec:
  fixes E :: "'p env"
  assumes "executeHandshake E c svc_JOINCH = (tr, c', r)"
  shows "filter is_observer tr
     = (case r of
          Nil \<Rightarrow> (if onConnect c then [OnConnect True] else [])
        | Err e \<Rightarrow> (if onConnect c then [OnConnect False] else [])
                    @ (if onError c then [OnError e, OnError e] else [])
        | Panic \<Rightarrow> [])"
    and "spec_events E c' = spec_events E c" and "onError c' = onError c"
proof -
  obtain c1 r1 where j: "setJoinHandshake E c = (c1, r1)" by (cases "setJoinHandshake E c") auto
  note k1 = setJoinHandshake_same [OF j]
  obtain tr2 c2 r2 where s: "setHandshake c1 svc_JOINCH = (tr2 :: 'p event list, c2, r2)"
    by (cases "setHandshake c1 svc_JOINCH :: 'p run") auto
  note k2 = setHandshake_same(2,3) [OF s]
  have o2: "spec_events E c2 = spec_events E c1" by (rule setHandshake_same(1) [OF s])
  from prepare_outcome(2) [of E c c1] j have r1: "r1 = Nil \<or> r1 = Panic"
    by (cases r1) auto
  have ex: "(tr, c', r)
      = (case r1 of
           Panic \<Rightarrow> ([], c1, Panic)
         | _ \<Rightarrow> (case r2 of Err e \<Rightarrow> (tr2 @ report c2 e, c2, Err e) | _ \<Rightarrow> (tr2, c2, r2)))"
    using assms j r1 s
    by (auto simp: executeHandshake_def svc_LOGIN_def svc_JOINCH_def split: outcome.splits)
  from setHandshake_spec [OF s] ex r1 k1 k2
  show "filter is_observer tr
     = (case r of
          Nil \<Rightarrow> (if onConnect c then [OnConnect True] else [])
        | Err e \<Rightarrow> (if onConnect c then [OnConnect False] else [])
                    @ (if onError c then [OnError e, OnError e] else [])
        | Panic \<Rightarrow> [])"
    by (auto simp: report_def split: outcome.splits)
  from ex r1 have "c' = c1 \<or> c' = c2" by (auto split: outcome.splits)
  with k1 k2 o2 show "spec_events E c' = spec_events E c" "onError c' = onError c" by auto
qed

lemma handle_login_spec:
  fixes E :: "'p env"
  assumes "handle E c svc_LOGIN msg = (tr, c', r)"
  shows "filter is_observer tr = spec_login c r"
    and "spec_events E c' = spec_events E c"
proof -
  obtain tr1 c1 r1 where x: "executeHandshake E c svc_JOINCH = (tr1, c1, r1)"
    by (cases "executeHandshake E c svc_JOINCH") auto
  note k = executeHandshake_spec [OF x]
  from assms x have h: "(tr, c', r)
      = (case r1 of Err e \<Rightarrow> (tr1 @ report c1 e, c1, Err e) | _ \<Rightarrow> (tr1, c1, r1))"
    by (auto simp: handle_def split: outcome.splits)
  from k(1,3) h show "filter is_observer tr = spec_login c r"
    by (auto simp: report_def spec_login_def split: outcome.splits)
  from h k(2) show "spec_events E c' = spec_events E c" by (auto split: outcome.splits)
qed

lemma parsed_spec:
  assumes "\<And>m. is_observer (deliver m)"
  shows "filter is_observer (parsed c b k msg res deliver) = spec_parsed b (onError c) res deliver"
  using assms by (auto simp: parsed_def spec_parsed_def report_def split: prod.splits option.splits)

lemma handle_other_spec:
  assumes "svc \<noteq> svc_LOGIN"
  shows "filter is_observer (fst (handle E c svc msg)) = spec_switch E c w svc msg"
  using assms by (simp add: handle_def spec_switch_def parsed_spec)

lemma before_spec:
  "filter is_observer (read_error c msg @ raw E c msg @ code_error E c msg) = spec_before_switch E c msg"
  by (auto simp: read_error_def raw_def code_error_def report_def spec_before_switch_def
      split: option.splits)

lemma dispatch_spec:
  fixes E :: "'p env"
  assumes "dispatch E c msg = (tr, c', r)"
  shows "filter is_observer tr = spec_events E c r msg"
    and "r \<noteq> Nil \<Longrightarrow> fst (getServiceCode E msg) = svc_LOGIN"
    and "spec_events E c' = spec_events E c"
proof -
  obtain tr3 where h: "handle E c (fst (getServiceCode E msg)) msg = (tr3, c', r)"
    and tr: "tr = Recv msg # read_error c msg @ raw E c msg @ code_error E c msg @ tr3"
    using assms by (auto simp: dispatch_def split: prod.splits)
  have obs: "filter is_observer tr = spec_before_switch E c msg @ filter is_observer tr3"
    using before_spec [of c msg E] unfolding tr by simp
  show "filter is_observer tr = spec_events E c r msg"
  proof (cases "fst (getServiceCode E msg) = svc_LOGIN")
    case True
    with handle_login_spec(1) [of E c msg tr3 c' r] h obs show ?thesis
      by (simp add: spec_events_def spec_switch_def)
  next
    case False
    with handle_other_spec [OF False, of E c msg r] h obs show ?thesis
      by (simp add: spec_events_def)
  qed
  show "fst (getServiceCode E msg) = svc_LOGIN" if "r \<noteq> Nil"
    using handle_other [of "fst (getServiceCode E msg)" E c msg] h that by auto
  show "spec_events E c' = spec_events E c"
  proof (cases "fst (getServiceCode E msg) = svc_LOGIN")
    case True
    with handle_login_spec(2) [of E c msg tr3 c' r] h show ?thesis by simp
  next
    case False
    from handle_other [OF False, of E c msg] h have "c' = c" by auto
    then show ?thesis by simp
  qed
qed

text \<open>
  C2. For every client and every sequence of messages in the read channel, the
  dispatcher takes the messages in the order of the channel, and the observer calls of
  the run are, message after message in that order, the observer calls of each message
  taken: all the calls for one message come before any call for the next, whatever
  the service codes. Either the run reaches the end of the channel and every message
  has had its calls, or it ends at a frame with the LOGIN code whose JOIN handshake
  fails or panics: then the messages before it have had their calls, that frame has
  those of the failed handshake, and the messages after it are left in the channel
  untouched. The calls are made one after the other by the one loop; the read activity
  and the keepalive timer call no observer.
\<close>

theorem observers_in_queue_order:
  fixes E :: "'p env"
  assumes "startParser E c msgs = (tr, c', r, left)"
  shows "received tr @ left = msgs
     \<and> ((r = Nil \<and> left = [] \<and> filter is_observer tr = concat (map (spec_events E c Nil) msgs))
        \<or> (\<exists>xs m. r \<noteq> Nil \<and> msgs = xs @ m # left
              \<and> fst (getServiceCode E m) = svc_LOGIN
              \<and> filter is_observer tr = concat (map (spec_events E c Nil) xs) @ spec_events E c r m))"
proof
  show "received tr @ left = msgs" by (rule startParser_received [OF assms])
  from assms
  show "(r = Nil \<and> left = [] \<and> filter is_observer tr = concat (map (spec_events E c Nil) msgs))
        \<or> (\<exists>xs m. r \<noteq> Nil \<and> msgs = xs @ m # left
              \<and> fst (getServiceCode E m) = svc_LOGIN
              \<and> filter is_observer tr = concat (map (spec_events E c Nil) xs) @ spec_events E c r m)"
  proof (induction msgs arbitrary: c tr c' r left)
    case Nil
    then show ?case by simp
  next
    case (Cons msg rest)
    obtain tr1 c1 r1 where d: "dispatch E c msg = (tr1, c1, r1)"
      by (cases "dispatch E c msg") auto
    note o = dispatch_spec [OF d]
    show ?case
    proof (cases "r1 = Nil")
      case True
      obtain tr2 c2 r2 l2 where s: "startParser E c1 rest = (tr2, c2, r2, l2)"
        by (cases "startParser E c1 rest") auto
      with Cons.prems d True have eq: "tr = tr1 @ tr2" "r = r2" "left = l2" by auto
      from o(1) True have o1: "filter is_observer tr1 = spec_events E c Nil msg" by simp
      from Cons.IH [OF s] o(3)
      have "(r2 = Nil \<and> l2 = [] \<and> filter is_observer tr2 = concat (map (spec_events E c Nil) rest))
        \<or> (\<exists>xs m. r2 \<noteq> Nil \<and> rest = xs @ m # l2
              \<and> fst (getServiceCode E m) = svc_LOGIN
              \<and> filter is_observer tr2 = concat (map (spec_events E c Nil) xs) @ spec_events E c r2 m)"
        by simp
      then show ?thesis
      proof
        assume "r2 = Nil \<and> l2 = [] \<and> filter is_observer tr2 = concat (map (spec_events E c Nil) rest)"
        with eq o1 show ?thesis by simp
      next
        assume "\<exists>xs m. r2 \<noteq> Nil \<and> rest = xs @ m # l2
              \<and> fst (getServiceCode E m) = svc_LOGIN
              \<and> filter is_observer tr2 = concat (map (spec_events E c Nil) xs) @ spec_events E c r2 m"
        then obtain xs m where x: "r2 \<noteq> Nil" "rest = xs @ m # l2"
          "fst (getServiceCode E m) = svc_LOGIN"
          "filter is_observer tr2 = concat (map (spec_events E c Nil) xs) @ spec_events E c r2 m"
          by blast
        have "msg # rest = (msg # xs) @ m # left" using x(2) eq(3) by simp
        moreover have "filter is_observer tr
            = concat (map (spec_events E c Nil) (msg # xs)) @ spec_events E c r m"
          using eq(1,2) o1 x(4) by simp
        ultimately show ?thesis using x(1,3) eq(2) by blast
      qed
    next
      case False
      with Cons.prems d have eq: "tr = tr1" "r = r1" "left = rest"
        by (auto split: outcome.splits)
      have "msg # rest = [] @ msg # left" using eq(3) by simp
      moreover have "filter is_observer tr = concat (map (spec_events E c Nil) []) @ spec_events E c r msg"
        using eq(1,2) o(1) by simp
      ultimately show ?thesis using o(2) [OF False] False eq(2) by blast
    qed
  qed
qed


text \<open>
  C2 on two runs of the watching client: three frames on a socket that works, and
  three frames on a socket whose first write fails.
\<close>

theorem observers_in_queue_order_witness:
  "fst (snd (snd (startParser sample_env (sample_watching [])
       [chat_frame, bad_chat_frame, login_frame]))) = Nil
   \<and> filter is_observer (fst (startParser sample_env (sample_watching [])
       [chat_frame, bad_chat_frame, login_frame]))
     = [OnChatMessage ''hi'', OnError (Error ''malformed body''), OnConnect True]
   \<and> concat (map (spec_events sample_env (sample_watching []) Nil)
       [chat_frame, bad_chat_frame, login_frame])
     = [OnChatMessage ''hi'', OnError (Error ''malformed body''), OnConnect True]
   \<and> snd (snd (startParser sample_env (sample_watching [Some (Error ''broken pipe'')])
       [chat_frame, login_frame, chat_frame])) = (Err (Error ''broken pipe''), [chat_frame])
   \<and> filter is_observer (fst (startParser sample_env
       (sample_watching [Some (Error ''broken pipe'')]) [chat_frame, login_frame, chat_frame]))
     = [OnChatMessage ''hi'', OnConnect False, OnError (Error ''broken pipe''),
        OnError (Error ''broken pipe''), OnError (Error ''broken pipe'')]
   \<and> concat (map (spec_events sample_env (sample_watching [Some (Error ''broken pipe'')]) Nil)
         [chat_frame])
       @ spec_events sample_env (sample_watching [Some (Error ''broken pipe'')])
           (Err (Error ''broken pipe'')) login_frame
     = [OnChatMessage ''hi'', OnConnect False, OnError (Error ''broken pipe''),
        OnError (Error ''broken pipe''), OnError (Error ''broken pipe'')]"
proof -
  obtain tr :: "string event list" and c' where
    run: "startParser sample_env (sample_watching []) [chat_frame, bad_chat_frame, login_frame]
      = (tr, c', Nil, [])"
    by (simp add: model_defs sample_defs)
  have owed: "concat (map (spec_events sample_env (sample_watching []) Nil)
       [chat_frame, bad_chat_frame, login_frame])
     = [OnChatMessage ''hi'', OnError (Error ''malformed body''), OnConnect True]"
    by (simp add: spec_defs sample_defs svc_LOGIN_def svc_JOINCH_def)
  from observers_in_queue_order [OF run]
  have "filter is_observer tr
      = concat (map (spec_events sample_env (sample_watching []) Nil)
          [chat_frame, bad_chat_frame, login_frame])"
    by blast
  with owed have seen: "filter is_observer (fst (startParser sample_env (sample_watching [])
       [chat_frame, bad_chat_frame, login_frame]))
     = [OnChatMessage ''hi'', OnError (Error ''malformed body''), OnConnect True]"
    unfolding run by simp
  have ended: "fst (snd (snd (startParser sample_env (sample_watching [])
       [chat_frame, bad_chat_frame, login_frame]))) = Nil"
    unfolding run by simp
  have failed: "snd (snd (startParser sample_env (sample_watching [Some (Error ''broken pipe'')])
       [chat_frame, login_frame, chat_frame])) = (Err (Error ''broken pipe''), [chat_frame])"
    by (simp add: model_defs sample_defs)
  have seen': "filter is_observer (fst (startParser sample_env
       (sample_watching [Some (Error ''broken pipe'')]) [chat_frame, login_frame, chat_frame]))
     = [OnChatMessage ''hi'', OnConnect False, OnError (Error ''broken pipe''),
        OnError (Error ''broken pipe''), OnError (Error ''broken pipe'')]"
    by (simp add: model_defs sample_defs)
  have owed': "concat (map (spec_events sample_env
         (sample_watching [Some (Error ''broken pipe'')]) Nil) [chat_frame])
       @ spec_events sample_env (sample_watching [Some (Error ''broken pipe'')])
           (Err (Error ''broken pipe'')) login_frame
     = [OnChatMessage ''hi'', OnConnect False, OnError (Error ''broken pipe''),
        OnError (Error ''broken pipe''), OnError (Error ''broken pipe'')]"
    by (simp add: spec_defs sample_defs svc_LOGIN_def svc_JOINCH_def)
  show ?thesis
    by (rule conjI [OF ended conjI [OF seen conjI [OF owed conjI [OF failed conjI [OF seen' owed']]]]])
qed

section \<open>The raw-message observer\<close>

lemma setHandshake_raw:
  "setHandshake c svc = (tr, c', r) \<Longrightarrow> onRawMessage c' = onRawMessage c \<and> filter is_raw tr = []"
  by (auto simp: setHandshake_def Let_def report_def split: if_splits option.splits prod.splits)

lemma setHandshakeData_raw:
  "setHandshakeData E c svc packet = (c', r) \<Longrightarrow> onRawMessage c' = onRawMessage c"
  by (auto simp: setHandshakeData_def Let_def split: if_splits)

lemma prepare_raw:
  "setLoginHandshke E c = (c', r) \<Longrightarrow> onRawMessage c' = onRawMessage c"
  "setJoinHandshake E c = (c', r) \<Longrightarrow> onRawMessage c' = onRawMessage c"
  by (auto simp: setLoginHandshke_def setJoinHandshake_def Let_def dest: setHandshakeData_raw)

lemma executeHandshake_raw:
  "executeHandshake E c svc = (tr, c', r) \<Longrightarrow>
     onRawMessage c' = onRawMessage c \<and> filter is_raw tr = []"
  by (auto simp: executeHandshake_def Let_def report_def prepare_outcome
      split: if_splits prod.splits outcome.splits dest: prepare_raw setHandshake_raw)

lemma handle_raw:
  "handle E c svc msg = (tr, c', r) \<Longrightarrow> onRawMessage c' = onRawMessage c \<and> filter is_raw tr = []"
  by (auto simp: handle_def parsed_def report_def
      split: if_splits prod.splits outcome.splits option.splits dest: executeHandshake_raw)

lemma dispatch_raw:
  assumes "onRawMessage c" "dispatch E c msg = (tr, c', r)"
  shows "onRawMessage c'" "filter is_raw tr = [OnRawMessage (sprintf_q E msg)]"
  using assms
  by (auto simp: dispatch_def read_error_def raw_def code_error_def report_def
      split: prod.splits option.splits dest: handle_raw)

lemma startParser_raw:
  "onRawMessage c \<Longrightarrow>
   filter is_raw (fst (startParser E c msgs))
     = map (\<lambda>m. OnRawMessage (sprintf_q E m)) (received (fst (startParser E c msgs)))"
proof (induction msgs arbitrary: c)
  case Nil
  then show ?case by simp
next
  case (Cons msg rest)
  obtain tr1 c1 r1 where d: "dispatch E c msg = (tr1, c1, r1)"
    by (cases "dispatch E c msg") auto
  from dispatch_received [OF d] have r1: "received tr1 = [msg]" by auto
  note raw1 = dispatch_raw [OF Cons.prems d]
  show ?case
  proof (cases "r1 = Nil")
    case True
    from Cons.IH [OF raw1(1)] d True r1 raw1(2) show ?thesis
      by (auto split: prod.splits)
  next
    case False
    with d r1 raw1(2) show ?thesis by (auto split: outcome.splits)
  qed
qed

text \<open>
  C10. With a raw-message observer registered, the raw-message events of a run of the
  dispatcher are the messages taken from the read channel, one event for each and in the
  same order, whatever the message is (a frame, the text of a failed read, bytes with
  no service code). Within one turn the raw-message event comes after the report of a
  failed read and before the error of the service code and everything the switch does.
\<close>

theorem raw_observer_every_message:
  assumes "onRawMessage c"
  shows "filter is_raw (fst (startParser E c msgs))
           = map (\<lambda>m. OnRawMessage (sprintf_q E m)) (received (fst (startParser E c msgs)))
       \<and> fst (dispatch E c msg)
           = Recv msg # read_error c msg @ OnRawMessage (sprintf_q E msg) # code_error E c msg
               @ fst (handle E c (fst (getServiceCode E msg)) msg)"
  using assms startParser_raw [OF assms, of E msgs]
  by (simp add: dispatch_def raw_def split: prod.splits)

text \<open>
  C10 on three reads: a chat frame, a failed read and an empty message, for which the
  sample decoder returns an error.
\<close>

theorem raw_observer_every_message_witness:
  "onRawMessage ((sample_client [])\<lparr>onRawMessage := True\<rparr>)
   \<and> reader [Inr chat_frame, Inl (Error ''EOF''), Inr []] = [chat_frame, ''error: EOF'', []]
   \<and> snd (getServiceCode sample_env []) = Some (Error ''invalid header'')
   \<and> filter is_raw (fst (startParser sample_env ((sample_client [])\<lparr>onRawMessage := True\<rparr>)
         (reader [Inr chat_frame, Inl (Error ''EOF''), Inr []])))
       = [OnRawMessage chat_frame, OnRawMessage ''error: EOF'', OnRawMessage []]"
proof -
  have reg: "onRawMessage ((sample_client [])\<lparr>onRawMessage := True\<rparr>)" by simp
  have taken: "received (fst (startParser sample_env ((sample_client [])\<lparr>onRawMessage := True\<rparr>)
      (reader [Inr chat_frame, Inl (Error ''EOF''), Inr []]))) = [chat_frame, ''error: EOF'', []]"
    by (simp add: model_defs sample_defs reader_def)
  from raw_observer_every_message [OF reg, of sample_env
      "reader [Inr chat_frame, Inl (Error ''EOF''), Inr []]" "[]"] taken
  show ?thesis by (simp add: sample_defs reader_def)
qed

section \<open>Events only for registered observers\<close>

lemma codes_apart:
  assumes "distinct_codes E"
  shows "svc_JOINCH \<noteq> svc_LOGIN"
    "svc_CHUSER E \<notin> {svc_LOGIN, svc_JOINCH}"
    "svc_CHATMESG E \<notin> {svc_LOGIN, svc_JOINCH, svc_CHUSER E}"
    "svc_SENDBALLOON E \<notin> {svc_LOGIN, svc_JOINCH, svc_CHUSER E, svc_CHATMESG E}"
    "svc_ADCON_EFFECT E \<notin> {svc_LOGIN, svc_JOINCH, svc_CHUSER E, svc_CHATMESG E,
       svc_SENDBALLOON E}"
    "svc_FOLLOW_ITEM E \<notin> {svc_LOGIN, svc_JOINCH, svc_CHUSER E, svc_CHATMESG E,
       svc_SENDBALLOON E, svc_ADCON_EFFECT E}"
    "svc_FOLLOW_ITEM_EFFECT E \<notin> {svc_LOGIN, svc_JOINCH, svc_CHUSER E, svc_CHATMESG E,
       svc_SENDBALLOON E, svc_ADCON_EFFECT E}"
    "svc_SENDADMINNOTICE E \<notin> {svc_LOGIN, svc_JOINCH, svc_CHUSER E, svc_CHATMESG E,
       svc_SENDBALLOON E, svc_ADCON_EFFECT E, svc_FOLLOW_ITEM E, svc_FOLLOW_ITEM_EFFECT E}"
    "svc_MISSION E \<notin> {svc_LOGIN, svc_JOINCH, svc_CHUSER E, svc_CHATMESG E,
       svc_SENDBALLOON E, svc_ADCON_EFFECT E, svc_FOLLOW_ITEM E, svc_FOLLOW_ITEM_EFFECT E,
       svc_SENDADMINNOTICE E}"
  using assms unfolding distinct_codes_def by auto

text \<open>The case of the switch that each service code selects.\<close>

lemma handle_cases:
  assumes "distinct_codes E"
  shows "handle E c svc_JOINCH msg =
      (if onJoinChannel c
       then ([Parse JoinChannel msg, OnJoinChannel (parseJoinChannel E msg)], c, Nil)
       else ([], c, Nil))"
    and "handle E c (svc_CHUSER E) msg =
      (if onUserLists c
       then ([Parse UserJoin msg, OnUserLists (parseUserJoin E msg)], c, Nil)
       else ([], c, Nil))"
    and "handle E c (svc_CHATMESG E) msg =
      (parsed c (onChatMessage c) ChatMessage msg (parseChatMessage E msg) OnChatMessage, c, Nil)"
    and "handle E c (svc_SENDBALLOON E) msg =
      (parsed c (onBalloon c) Balloon msg (parseBalloon E msg) OnBalloon, c, Nil)"
    and "handle E c (svc_ADCON_EFFECT E) msg =
      (parsed c (onAdballoon c) Adballoon msg (parseAdballoon E msg) OnAdballoon, c, Nil)"
    and "handle E c (svc_FOLLOW_ITEM E) msg =
      (parsed c (onSubscription c) Subscription msg
         (parseSubscription E msg (svc_FOLLOW_ITEM E)) OnSubscription, c, Nil)"
    and "handle E c (svc_FOLLOW_ITEM_EFFECT E) msg =
      (parsed c (onSubscription c) Subscription msg
         (parseSubscription E msg (svc_FOLLOW_ITEM_EFFECT E)) OnSubscription, c, Nil)"
    and "handle E c (svc_SENDADMINNOTICE E) msg =
      (parsed c (onAdminNotice c) AdminNotice msg (parseAdminNotice E msg) OnAdminNotice, c, Nil)"
    and "handle E c (svc_MISSION E) msg =
      (parsed c (onMission c) Mission msg (parseMission E msg) OnMission, c, Nil)"
  using codes_apart [OF assms] unfolding handle_def by simp_all

lemma parsed_shape:
  "parsed c b k msg res d =
     (if b then Parse k msg # (case snd res of Some e \<Rightarrow> report c e | None \<Rightarrow> [d (fst res)])
      else [])"
  by (auto simp: parsed_def split: prod.splits option.splits)

lemma handle_kind:
  assumes "distinct_codes E" "svc \<in> set (codes E k)"
  shows "\<exists>tr. handle E c svc msg = (tr, c, Nil)
           \<and> (observer c k \<longrightarrow> (\<exists>tr'. tr = Parse k msg # tr'))
           \<and> (\<not> observer c k \<longrightarrow> tr = [])
           \<and> (\<forall>k' m. Parse k' m \<in> set tr \<longrightarrow> k' = k \<and> m = msg \<and> observer c k)"
proof (cases k)
  case JoinChannel
  with assms(2) have "svc = hd (codes E k)" by simp
  with JoinChannel handle_cases(1) [OF assms(1), of c msg] show ?thesis
    by (simp add: parsed_shape report_def split: option.splits)
next
  case UserJoin
  with assms(2) have "svc = hd (codes E k)" by simp
  with UserJoin handle_cases(2) [OF assms(1), of c msg] show ?thesis
    by (simp add: parsed_shape report_def split: option.splits)
next
  case ChatMessage
  with assms(2) have "svc = hd (codes E k)" by simp
  with ChatMessage handle_cases(3) [OF assms(1), of c msg] show ?thesis
    by (simp add: parsed_shape report_def split: option.splits)
next
  case Balloon
  with assms(2) have "svc = hd (codes E k)" by simp
  with Balloon handle_cases(4) [OF assms(1), of c msg] show ?thesis
    by (simp add: parsed_shape report_def split: option.splits)
next
  case Adballoon
  with assms(2) have "svc = hd (codes E k)" by simp
  with Adballoon handle_cases(5) [OF assms(1), of c msg] show ?thesis
    by (simp add: parsed_shape report_def split: option.splits)
next
  case AdminNotice
  with assms(2) have "svc = hd (codes E k)" by simp
  with AdminNotice handle_cases(8) [OF assms(1), of c msg] show ?thesis
    by (simp add: parsed_shape report_def split: option.splits)
next
  case Mission
  with assms(2) have "svc = hd (codes E k)" by simp
  with Mission handle_cases(9) [OF assms(1), of c msg] show ?thesis
    by (simp add: parsed_shape report_def split: option.splits)
next
  case Subscription
  with assms(2) have "svc = svc_FOLLOW_ITEM E \<or> svc = svc_FOLLOW_ITEM_EFFECT E" by simp
  then show ?thesis
  proof
    assume "svc = svc_FOLLOW_ITEM E"
    with Subscription handle_cases(6) [OF assms(1), of c msg] show ?thesis
      by (simp add: parsed_shape report_def split: option.splits)
  next
    assume "svc = svc_FOLLOW_ITEM_EFFECT E"
    with Subscription handle_cases(7) [OF assms(1), of c msg] show ?thesis
      by (simp add: parsed_shape report_def split: option.splits)
  qed
qed

lemma preamble_parse:
  "Parse k m \<notin> set (read_error c msg)" "Parse k m \<notin> set (raw E c msg)"
  "Parse k m \<notin> set (code_error E c msg)"
  by (auto simp: read_error_def raw_def code_error_def report_def split: option.splits)

text \<open>
  C9. Take a frame whose service code is one of the codes of a kind of event other than
  LOGIN (join acknowledgement, roster, chat, balloon, ad-balloon, subscription, admin
  notice, mission). If the observer of that kind is registered, the switch starts by
  calling the parser of the kind. If it is not, the turn is over after what comes before
  the switch (the report of a failed read, the raw-message event, the error of the
  service code): no parser is called, no event of the kind and no parse error is
  delivered, and the loop goes on with the client unchanged. In both cases the only
  parser a turn can call is the one of the frame's kind, and only with its observer
  registered.
\<close>

theorem unobserved_kind_silent:
  assumes "distinct_codes E" "fst (getServiceCode E msg) \<in> set (codes E k)"
  shows "(observer c k \<longrightarrow>
            (\<exists>tr. handle E c (fst (getServiceCode E msg)) msg = (Parse k msg # tr, c, Nil)))
       \<and> (\<not> observer c k \<longrightarrow>
            dispatch E c msg
              = (Recv msg # read_error c msg @ raw E c msg @ code_error E c msg, c, Nil))
       \<and> (\<forall>k' m. Parse k' m \<in> set (fst (dispatch E c msg))
            \<longrightarrow> k' = k \<and> m = msg \<and> observer c k)"
proof -
  from handle_kind [OF assms, of c msg] obtain tr where
    h: "handle E c (fst (getServiceCode E msg)) msg = (tr, c, Nil)"
    and t: "observer c k \<longrightarrow> (\<exists>tr'. tr = Parse k msg # tr')" "\<not> observer c k \<longrightarrow> tr = []"
      "\<forall>k' m. Parse k' m \<in> set tr \<longrightarrow> k' = k \<and> m = msg \<and> observer c k"
    by blast
  have d: "dispatch E c msg
      = (Recv msg # read_error c msg @ raw E c msg @ code_error E c msg @ tr, c, Nil)"
    using h by (simp add: dispatch_def)
  have p: "Parse k' m \<in> set tr" if "Parse k' m \<in> set (fst (dispatch E c msg))" for k' m
    using that unfolding d by (simp add: preamble_parse)
  have "observer c k \<longrightarrow>
      (\<exists>tr. handle E c (fst (getServiceCode E msg)) msg = (Parse k msg # tr, c, Nil))"
    using h t(1) by blast
  moreover have "\<not> observer c k \<longrightarrow> dispatch E c msg
      = (Recv msg # read_error c msg @ raw E c msg @ code_error E c msg, c, Nil)"
    using d t(2) by simp
  moreover have "\<forall>k' m. Parse k' m \<in> set (fst (dispatch E c msg))
      \<longrightarrow> k' = k \<and> m = msg \<and> observer c k"
    using p t(3) by blast
  ultimately show ?thesis by blast
qed

text \<open>
  C9 on a chat frame with an empty body: without a chat observer the turn is the taking
  of the message alone, although the error observer is registered; with a chat observer
  the parser is called.
\<close>

theorem unobserved_kind_silent_witness:
  "distinct_codes sample_env
   \<and> fst (getServiceCode sample_env bad_chat_frame) \<in> set (codes sample_env ChatMessage)
   \<and> \<not> observer ((sample_client [])\<lparr>onError := True\<rparr>) ChatMessage
   \<and> dispatch sample_env ((sample_client [])\<lparr>onError := True\<rparr>) bad_chat_frame
       = ([Recv bad_chat_frame], (sample_client [])\<lparr>onError := True\<rparr>, Nil)
   \<and> observer ((sample_client [])\<lparr>onChatMessage := True\<rparr>) ChatMessage
   \<and> Parse ChatMessage bad_chat_frame
       \<in> set (fst (dispatch sample_env ((sample_client [])\<lparr>onChatMessage := True\<rparr>) bad_chat_frame))"
proof -
  have apart: "distinct_codes sample_env"
    by (simp add: distinct_codes_def sample_defs svc_LOGIN_def svc_JOINCH_def)
  have code: "fst (getServiceCode sample_env bad_chat_frame) \<in> set (codes sample_env ChatMessage)"
    by (simp add: sample_defs)
  have off: "\<not> observer ((sample_client [])\<lparr>onError := True\<rparr>) ChatMessage"
    by (simp add: sample_defs)
  have on: "observer ((sample_client [])\<lparr>onChatMessage := True\<rparr>) ChatMessage"
    by simp
  have called: "Parse ChatMessage bad_chat_frame
      \<in> set (fst (dispatch sample_env ((sample_client [])\<lparr>onChatMessage := True\<rparr>) bad_chat_frame))"
    by (simp add: model_defs sample_defs)
  from unobserved_kind_silent [OF apart code, of "(sample_client [])\<lparr>onError := True\<rparr>"]
    unobserved_kind_silent [OF apart code, of "(sample_client [])\<lparr>onChatMessage := True\<rparr>"]
    apart code off on called
  show ?thesis by (simp add: model_defs sample_defs)
qed

section \<open>A chat frame that does not parse\<close>

text \<open>
  Against C6 as stated: a chat frame with an empty body, which the sample parser
  rejects, for a client that has an error observer and no chat observer. The turn
  delivers no error event at all, where the claim asks for exactly one.
\<close>

theorem malformed_chat_counterexample:
  "fst (getServiceCode sample_env bad_chat_frame) = svc_CHATMESG sample_env
   \<and> parseChatMessage sample_env bad_chat_frame = ([], Some (Error ''malformed body''))
   \<and> onError ((sample_client [])\<lparr>onError := True\<rparr>)
   \<and> dispatch sample_env ((sample_client [])\<lparr>onError := True\<rparr>) bad_chat_frame
       = ([Recv bad_chat_frame], (sample_client [])\<lparr>onError := True\<rparr>, Nil)
   \<and> length (filter is_error
         (fst (dispatch sample_env ((sample_client [])\<lparr>onError := True\<rparr>) bad_chat_frame))) \<noteq> 1"
  by (simp add: model_defs sample_defs)

text \<open>
  C6, amended. When the chat observer and the error observer are both registered and a
  frame with the chat service code does not parse, the switch calls the chat parser and
  delivers its error to the error observer, once, and no chat-message event; the turn
  ends without returning, so the loop goes on with the client unchanged. What comes
  before the switch (the report of a failed read, the raw-message event, an error of
  the service code) is not touched by this.
\<close>

theorem malformed_chat_observed:
  assumes "distinct_codes E" "fst (getServiceCode E msg) = svc_CHATMESG E"
    "parseChatMessage E msg = (m, Some e)" "onChatMessage c" "onError c"
  shows "dispatch E c msg
           = (Recv msg # read_error c msg @ raw E c msg @ code_error E c msg
                @ [Parse ChatMessage msg, OnError e], c, Nil)"
  using assms(2-) handle_cases(3) [OF assms(1), of c msg]
  by (simp add: dispatch_def parsed_def report_def)

theorem malformed_chat_observed_witness:
  "distinct_codes sample_env
   \<and> fst (getServiceCode sample_env bad_chat_frame) = svc_CHATMESG sample_env
   \<and> parseChatMessage sample_env bad_chat_frame = ([], Some (Error ''malformed body''))
   \<and> onChatMessage ((sample_client [])\<lparr>onChatMessage := True, onError := True\<rparr>)
   \<and> onError ((sample_client [])\<lparr>onChatMessage := True, onError := True\<rparr>)
   \<and> dispatch sample_env ((sample_client [])\<lparr>onChatMessage := True, onError := True\<rparr>)
         bad_chat_frame
       = ([Recv bad_chat_frame, Parse ChatMessage bad_chat_frame, OnError (Error ''malformed body'')],
          (sample_client [])\<lparr>onChatMessage := True, onError := True\<rparr>, Nil)"
proof -
  have apart: "distinct_codes sample_env"
    by (simp add: distinct_codes_def sample_defs svc_LOGIN_def svc_JOINCH_def)
  have code: "fst (getServiceCode sample_env bad_chat_frame) = svc_CHATMESG sample_env"
    by (simp add: sample_defs)
  have bad: "parseChatMessage sample_env bad_chat_frame = ([], Some (Error ''malformed body''))"
    by (simp add: sample_defs)
  have on: "onChatMessage ((sample_client [])\<lparr>onChatMessage := True, onError := True\<rparr>)"
    "onError ((sample_client [])\<lparr>onChatMessage := True, onError := True\<rparr>)"
    by simp_all
  from malformed_chat_observed [OF apart code bad on] apart code bad on
  show ?thesis by (simp add: read_error_def raw_def code_error_def sample_defs)
qed

section \<open>One JOIN frame for each LOGIN frame\<close>

text \<open>
  Against C8 as stated: two frames with the LOGIN code come in, and the dispatcher
  writes the JOIN frame twice.
\<close>

theorem join_once_counterexample:
  "fst (startParser sample_env (sample_client []) [login_frame, login_frame])
     = [Recv login_frame, SockWrite sample_join, Recv login_frame, SockWrite sample_join]
   \<and> \<not> length (filter is_write
           (fst (startParser sample_env (sample_client []) [login_frame, login_frame]))) \<le> 1"
  by (simp add: model_defs sample_defs)

text \<open>A ready client never panics in the dispatcher, and stays ready.\<close>

lemma setHandshake_ready:
  assumes "ready c" "svc = 1 \<or> svc = 2" "setHandshake c svc = (tr, c', r)"
  shows "ready c' \<and> r \<noteq> Panic"
  using assms
  by (auto simp: ready_def setHandshake_def Let_def split: prod.splits option.splits if_splits)

lemma setJoinHandshake_ready:
  assumes "ready c" "setJoinHandshake E c = (c', r)"
  shows "ready c' \<and> r = Nil"
  using assms
  by (auto simp: ready_def setJoinHandshake_def setHandshakeData_def Let_def)

lemma executeHandshake_ready:
  assumes "ready c" "executeHandshake E c svc_JOINCH = (tr, c', r)"
  shows "ready c' \<and> r \<noteq> Panic"
proof -
  obtain c1 r1 where j: "setJoinHandshake E c = (c1, r1)" by (cases "setJoinHandshake E c") auto
  from setJoinHandshake_ready [OF assms(1) j] have c1: "ready c1" "r1 = Nil" by auto
  obtain tr2 c2 r2 where s: "setHandshake c1 svc_JOINCH = (tr2 :: 'a event list, c2, r2)"
    by (cases "setHandshake c1 svc_JOINCH :: 'a run") auto
  from setHandshake_ready [OF c1(1) _ s] have "ready c2" "r2 \<noteq> Panic"
    by (auto simp: svc_JOINCH_def)
  with assms(2) j c1 s show ?thesis
    by (auto simp: executeHandshake_def svc_LOGIN_def svc_JOINCH_def split: outcome.splits)
qed

lemma dispatch_ready:
  assumes "ready c" "dispatch E c msg = (tr, c', r)"
  shows "ready c' \<and> r \<noteq> Panic"
proof (cases "fst (getServiceCode E msg) = svc_LOGIN")
  case True
  with assms show ?thesis
    by (auto simp: dispatch_def handle_def split: prod.splits outcome.splits
        dest: executeHandshake_ready)
next
  case False
  from dispatch_other [OF False, of c] assms show ?thesis by auto
qed

lemma startParser_ready:
  assumes "ready c" "startParser E c msgs = (tr, c', r, left)"
  shows "r \<noteq> Panic"
  using assms
proof (induction msgs arbitrary: c tr c' r left)
  case Nil
  then show ?case by auto
next
  case (Cons msg rest)
  obtain tr1 c1 r1 where d: "dispatch E c msg = (tr1, c1, r1)"
    by (cases "dispatch E c msg") auto
  from dispatch_ready [OF Cons.prems(1) d] have c1: "ready c1" "r1 \<noteq> Panic" by auto
  show ?case
  proof (cases "r1 = Nil")
    case True
    with Cons.prems(2) d Cons.IH [OF c1(1)] show ?thesis
      by (auto split: prod.splits)
  next
    case False
    with Cons.prems(2) d c1 show ?thesis by (auto split: outcome.splits)
  qed
qed

text \<open>
  The JOIN frame is made of the token and the channel password, which the dispatcher
  does not change.
\<close>

lemma join_frame_cong:
  assumes "ready c" "ready c'" "Token c' = Token c" "channelPassword c' = channelPassword c"
  shows "join_frame E c' = join_frame E c"
  using assms
  by (simp add: join_frame_def ready_def setJoinHandshake_def setHandshakeData_def Let_def)

lemma setHandshake_keeps:
  assumes "setHandshake c svc = (tr, c', r)"
  shows "Token c' = Token c \<and> channelPassword c' = channelPassword c \<and> handshake c' = handshake c"
  using assms
  by (auto simp: setHandshake_def Let_def split: prod.splits option.splits if_splits)

lemma setHandshake_join:
  assumes "ready c" "setHandshake c svc_JOINCH = (tr, c', r)"
  shows "filter is_write tr = [SockWrite (handshake c ! 1)]"
  using assms
  by (auto simp: ready_def setHandshake_def Let_def svc_JOINCH_def report_def
      split: prod.splits option.splits if_splits)

lemma setJoinHandshake_keeps:
  assumes "setJoinHandshake E c = (c', r)"
  shows "Token c' = Token c \<and> channelPassword c' = channelPassword c"
  using assms
  by (auto simp: setJoinHandshake_def setHandshakeData_def Let_def split: if_splits)

lemma executeHandshake_join:
  assumes "ready c" "executeHandshake E c svc_JOINCH = (tr, c', r)"
  shows "filter is_write tr = [SockWrite (join_frame E c)]
     \<and> Token c' = Token c \<and> channelPassword c' = channelPassword c"
proof -
  obtain c1 r1 where j: "setJoinHandshake E c = (c1, r1)" by (cases "setJoinHandshake E c") auto
  from setJoinHandshake_ready [OF assms(1) j] have c1: "ready c1" "r1 = Nil" by auto
  have f: "handshake c1 ! 1 = join_frame E c" using j by (simp add: join_frame_def)
  obtain tr2 c2 r2 where s: "setHandshake c1 svc_JOINCH = (tr2 :: 'a event list, c2, r2)"
    by (cases "setHandshake c1 svc_JOINCH :: 'a run") auto
  from setHandshake_join [OF c1(1) s] f have w: "filter is_write tr2 = [SockWrite (join_frame E c)]"
    by simp
  from setHandshake_keeps [OF s] setJoinHandshake_keeps [OF j]
  have k: "Token c2 = Token c" "channelPassword c2 = channelPassword c" by auto
  from assms(2) j c1 s w k show ?thesis
    by (auto simp: executeHandshake_def svc_LOGIN_def svc_JOINCH_def split: outcome.splits)
qed

lemma dispatch_join:
  assumes "ready c" "dispatch E c msg = (tr, c', r)"
  shows "filter is_write tr
       = (if fst (getServiceCode E msg) = svc_LOGIN then [SockWrite (join_frame E c)] else [])
     \<and> Token c' = Token c \<and> channelPassword c' = channelPassword c"
proof (cases "fst (getServiceCode E msg) = svc_LOGIN")
  case True
  with assms show ?thesis
    by (auto simp: dispatch_def handle_def split: prod.splits outcome.splits
        dest: executeHandshake_join)
next
  case False
  from dispatch_other [OF False, of c] assms False show ?thesis by auto
qed

text \<open>
  C8, amended. The client keeps no handshake phase. In every run of the dispatcher on a
  ready client, over every sequence of inbound frames, the socket writes are one copy
  of the client's JOIN frame for each message taken from the read channel that carries
  the LOGIN code, and nothing else: the JOIN frame goes out once per LOGIN frame
  received, so at most once only if the server sends at most one.
\<close>

theorem join_per_login:
  assumes "ready c"
  shows "filter is_write (fst (startParser E c msgs))
     = replicate (length (filter (\<lambda>m. fst (getServiceCode E m) = svc_LOGIN)
                    (received (fst (startParser E c msgs)))))
         (SockWrite (join_frame E c))"
  using assms
proof (induction msgs arbitrary: c)
  case Nil
  then show ?case by simp
next
  case (Cons msg rest)
  obtain tr1 c1 r1 where d: "dispatch E c msg = (tr1, c1, r1)"
    by (cases "dispatch E c msg") auto
  from dispatch_received [OF d] have r1: "received tr1 = [msg]" by auto
  from dispatch_ready [OF Cons.prems d] have c1: "ready c1" by simp
  from dispatch_join [OF Cons.prems d]
  have w: "filter is_write tr1
       = (if fst (getServiceCode E msg) = svc_LOGIN then [SockWrite (join_frame E c)] else [])"
    and k: "Token c1 = Token c" "channelPassword c1 = channelPassword c" by auto
  have same: "join_frame E c1 = join_frame E c"
    by (rule join_frame_cong [OF Cons.prems c1 k])
  show ?case
  proof (cases "r1 = Nil")
    case True
    with d Cons.IH [OF c1] r1 w same show ?thesis
      by (auto split: prod.splits)
  next
    case False
    with d r1 w show ?thesis by (auto split: outcome.splits)
  qed
qed

theorem join_per_login_witness:
  "ready (sample_client [])
   \<and> join_frame sample_env (sample_client []) = sample_join
   \<and> received (fst (startParser sample_env (sample_client [])
        [login_frame, chat_frame, login_frame])) = [login_frame, chat_frame, login_frame]
   \<and> filter is_write (fst (startParser sample_env (sample_client [])
        [login_frame, chat_frame, login_frame]))
       = [SockWrite sample_join, SockWrite sample_join]"
proof -
  have ok: "ready (sample_client [])"
    by (simp add: ready_def sample_defs)
  have frame: "join_frame sample_env (sample_client []) = sample_join"
    by (simp add: join_frame_def model_defs sample_defs)
  have taken: "received (fst (startParser sample_env (sample_client [])
      [login_frame, chat_frame, login_frame])) = [login_frame, chat_frame, login_frame]"
    by (simp add: model_defs sample_defs)
  have codes: "filter (\<lambda>m. fst (getServiceCode sample_env m) = svc_LOGIN)
      [login_frame, chat_frame, login_frame] = [login_frame, login_frame]"
    by (simp add: model_defs sample_defs)
  from join_per_login [OF ok, of sample_env "[login_frame, chat_frame, login_frame]"]
    ok frame taken codes
  show ?thesis by (simp add: numeral_2_eq_2)
qed

section \<open>When the handshake frames are built\<close>

text \<open>
  Against C3 as stated: the first frame of a session. \<open>executeHandshake\<close> for LOGIN on a
  fresh client builds the LOGIN frame and sends it; the slot of the JOIN frame is
  still empty then, and is not the JOIN frame that the client would build.
\<close>

theorem handshake_prebuilt_counterexample:
  "executeHandshake sample_env (sample_client []) svc_LOGIN
     = ([SockWrite sample_login :: string event],
        (sample_client [])\<lparr>handshake := [sample_login, []]\<rparr>, Nil)
   \<and> handshake (fst (snd (executeHandshake sample_env (sample_client []) svc_LOGIN))) ! 1 = []
   \<and> handshake (fst (setJoinHandshake sample_env (sample_client []))) ! 1 = sample_join
   \<and> sample_join \<noteq> []"
  by (simp add: model_defs sample_defs)

lemma setHandshake_sends:
  assumes "socket c = Some s" "0 \<le> svc - 1" "nat (svc - 1) < length (handshake c)"
  shows "\<exists>rest c' r. setHandshake c svc = (SockWrite (handshake c ! nat (svc - 1)) # rest, c', r)
           \<and> r \<noteq> Panic \<and> handshake c' = handshake c"
  using assms by (auto simp: setHandshake_def Let_def split: prod.splits option.splits)

text \<open>
  C3, amended. Each handshake frame is built when it is about to be sent, not at
  session start: on a ready client, \<open>executeHandshake\<close> for
  LOGIN or for JOIN first stores the frame it builds in the slot of that phase and leaves
  the other slot as it was, then makes one socket write, of the bytes of that slot as
  they are, before any observer is called.
\<close>

theorem handshake_built_when_sent:
  fixes E :: "'p env"
  assumes "ready c" "svc = svc_LOGIN \<or> svc = svc_JOINCH"
  shows "\<exists>rest c' r.
       executeHandshake E c svc = (SockWrite (handshake c' ! nat (svc - 1)) # rest, c', r)
     \<and> r \<noteq> Panic
     \<and> handshake c'
         = handshake (fst (if svc = svc_LOGIN then setLoginHandshke E c else setJoinHandshake E c))
     \<and> handshake c' ! nat (2 - svc) = handshake c ! nat (2 - svc)"
proof -
  from assms(1) obtain s where c: "socket c = Some s" "length (handshake c) = 2"
    by (auto simp: ready_def)
  define b where "b = (if svc = svc_LOGIN then setLoginHandshke E c else setJoinHandshake E c)"
  have b: "snd b = Nil" "socket (fst b) = Some s" "length (handshake (fst b)) = 2"
    "handshake (fst b) ! nat (2 - svc) = handshake c ! nat (2 - svc)"
    using c assms(2)
    by (auto simp: b_def setLoginHandshke_def setJoinHandshake_def setHandshakeData_def Let_def
        svc_LOGIN_def svc_JOINCH_def)
  have "0 \<le> svc - 1" "nat (svc - 1) < length (handshake (fst b))"
    using assms(2) b(3) by (auto simp: svc_LOGIN_def svc_JOINCH_def)
  from setHandshake_sends [OF b(2) this] obtain rest :: "'p event list" and c' r where
    s: "setHandshake (fst b) svc = (SockWrite (handshake (fst b) ! nat (svc - 1)) # rest, c', r)"
      "r \<noteq> Panic" "handshake c' = handshake (fst b)"
    by blast
  have "executeHandshake E c svc
      = (SockWrite (handshake c' ! nat (svc - 1))
           # (rest @ (case r of Err e \<Rightarrow> report c' e | _ \<Rightarrow> [])), c', r)"
    using assms(2) b(1) s
    by (cases b; cases r) (auto simp: executeHandshake_def b_def svc_LOGIN_def svc_JOINCH_def)
  with s b show ?thesis unfolding b_def by auto
qed

theorem handshake_built_when_sent_witness:
  "ready (sample_client [])
   \<and> executeHandshake sample_env (sample_client []) svc_JOINCH
       = ([SockWrite sample_join :: string event],
          (sample_client [])\<lparr>handshake := [[], sample_join]\<rparr>, Nil)
   \<and> handshake (fst (setJoinHandshake sample_env (sample_client []))) = [[], sample_join]"
proof -
  have ok: "ready (sample_client [])"
    by (simp add: ready_def sample_defs)
  have phase: "svc_JOINCH = svc_LOGIN \<or> svc_JOINCH = svc_JOINCH" by simp
  from handshake_built_when_sent [OF ok phase, of sample_env] ok
  show ?thesis by (simp add: model_defs sample_defs)
qed

section \<open>Sparse key/value blocks\<close>

lemma setInfoHandshake_loop_eq:
  "setInfoHandshake_loop E info acc =
     acc @ concat (map (\<lambda>(tag, v). toLower E tag @ [CHR 0x11] @ sprintf_v E v @ [CHR 0x12])
                     (filter (\<lambda>(tag, v). \<not> IsZero v) info))"
  by (induction info arbitrary: acc) (auto simp: Let_def)

lemma setLogValue_loop_eq:
  "setLogValue_loop E log acc =
     acc @ concat (map (\<lambda>(tag, v). [CHR 0x06] @ toLower E tag @ [CHR 0x06, CHR ''='', CHR 0x06]
                                       @ sprintf_v E v @ [CHR 0x06, CHR ''&''])
                     (filter (\<lambda>(tag, v). \<not> IsZero v) log))"
  by (induction log arbitrary: acc) (auto simp: Let_def)

text \<open>
  C7. The info block is the concatenation, over the fields whose value is not the zero
  value and in the order of the struct, of the lower-cased tag, the byte 17, the
  printed value and the byte 18. The log value is the two bytes 6 and \<open>&\<close> followed by
  the concatenation, over the fields whose value is not the zero value, of the byte 6,
  the lower-cased tag, the bytes 6, \<open>=\<close>, 6, the printed value and the bytes 6 and
  \<open>&\<close>. A field with the zero value contributes nothing to either block.
\<close>

theorem sparse_blocks:
  "setInfoHandshake E info =
     concat (map (\<lambda>(tag, v). toLower E tag @ [CHR 0x11] @ sprintf_v E v @ [CHR 0x12])
               (filter (\<lambda>(tag, v). \<not> IsZero v) info))
   \<and> setLogValue E log =
     [CHR 0x06, CHR ''&'']
     @ concat (map (\<lambda>(tag, v). [CHR 0x06] @ toLower E tag @ [CHR 0x06, CHR ''='', CHR 0x06]
                                  @ sprintf_v E v @ [CHR 0x06, CHR ''&''])
                 (filter (\<lambda>(tag, v). \<not> IsZero v) log))"
  by (simp add: setInfoHandshake_def setLogValue_def setInfoHandshake_loop_eq
      setLogValue_loop_eq)

section \<open>Sending needs a ticket\<close>

text \<open>
  C4. Whatever the message, \<open>SendChatMessage\<close> on a client whose authentication ticket is
  empty returns the error "cannot non-member send message" and does nothing else: no
  socket write, the client unchanged. With a ticket, on a connected client, it makes
  one socket write, of the header for service code 5 and the length of the body
  followed by the body made of the message between form feeds and the field "0", and
  returns what the write returns.
\<close>

theorem send_chat_needs_ticket:
  "(authTicket (Token c) = [] \<longrightarrow>
      SendChatMessage E c message = ([], c, Err (Error ''cannot non-member send message'')))
   \<and> (authTicket (Token c) \<noteq> [] \<and> socket c = Some s \<longrightarrow>
      (\<exists>c' r. SendChatMessage E c message =
         ([SockWrite
            (makeHeader E 5
               (int (length (makeBuffer E [[CHR 0x0C], message, [CHR 0x0C], ''0'', [CHR 0x0C]]))) 0
             @ makeBuffer E [[CHR 0x0C], message, [CHR 0x0C], ''0'', [CHR 0x0C]])], c', r)
         \<and> r = (case snd (WriteMessage s) of None \<Rightarrow> Nil | Some e \<Rightarrow> Err e)))"
  by (auto simp: SendChatMessage_def Let_def split: prod.splits option.splits)

theorem send_chat_needs_ticket_witness:
  "authTicket (Token (sample_client [])) = []
   \<and> SendChatMessage sample_env (sample_client []) ''hi''
       = ([], sample_client [], Err (Error ''cannot non-member send message''))
   \<and> authTicket (Token ((sample_client [])\<lparr>Token := zero_token\<lparr>authTicket := ''t''\<rparr>\<rparr>)) \<noteq> []
   \<and> socket ((sample_client [])\<lparr>Token := zero_token\<lparr>authTicket := ''t''\<rparr>\<rparr>) = Some []
   \<and> fst (SendChatMessage sample_env
         ((sample_client [])\<lparr>Token := zero_token\<lparr>authTicket := ''t''\<rparr>\<rparr>) ''hi'')
       = [SockWrite [CHR 0x1B, CHR 0x09, CHR 0x05, CHR 0x0C, CHR ''h'', CHR ''i'', CHR 0x0C,
            CHR ''0'', CHR 0x0C]]"
  using send_chat_needs_ticket [where c = "sample_client []" and E = sample_env
      and message = "''hi''"]
    send_chat_needs_ticket
      [where c = "(sample_client [])\<lparr>Token := zero_token\<lparr>authTicket := ''t''\<rparr>\<rparr>"
        and s = "[]" and E = sample_env and message = "''hi''"]
  by (simp add: SendChatMessage_def WriteMessage_def sample_defs)

section \<open>A client needs a streamer\<close>

text \<open>
  C5. \<open>NewClient\<close> on a token whose streamer identifier is empty returns the error
  "StreamerID is missing from token" with the zero client; on any other token it returns
  no error and a client that holds the token, an empty two-slot handshake cache and no
  connection. In both cases nothing is sent or received: the result has no socket.
\<close>

theorem new_client_needs_streamer:
  "(StreamerID tok = [] \<longrightarrow>
      NewClient tok = (zero_client, Some (Error ''StreamerID is missing from token'')))
   \<and> (StreamerID tok \<noteq> [] \<longrightarrow>
      (\<exists>c. NewClient tok = (c, None) \<and> Token c = tok \<and> handshake c = [[], []]))
   \<and> socket (fst (NewClient tok)) = None"
  by (simp add: NewClient_def zero_client_def)

theorem new_client_needs_streamer_witness:
  "StreamerID zero_token = []
   \<and> NewClient zero_token = (zero_client, Some (Error ''StreamerID is missing from token''))
   \<and> StreamerID (zero_token\<lparr>StreamerID := ''abc''\<rparr>) \<noteq> []
   \<and> snd (NewClient (zero_token\<lparr>StreamerID := ''abc''\<rparr>)) = None
   \<and> Token (fst (NewClient (zero_token\<lparr>StreamerID := ''abc''\<rparr>))) = zero_token\<lparr>StreamerID := ''abc''\<rparr>"
  using new_client_needs_streamer [of zero_token]
    new_client_needs_streamer [of "zero_token\<lparr>StreamerID := ''abc''\<rparr>"]
  by (auto simp: zero_token_def)

end
